theory Spec2Isabelle
  imports Main "HOL-Library.AList" "HOL-Library.Char_ord" "HOL-Library.List_Lexorder"
begin

section \<open>Python strings\<close>

text \<open>
  A Python \<open>str\<close> is a sequence of code points. The model covers the strings whose code
  points lie in U+0000..U+00FF: a \<^typ>\<open>char\<close> is read as the code point of the same
  number, \<open>len\<close> is \<^const>\<open>length\<close>, \<open>==\<close> is equality and \<open><\<close> (used by
  \<open>sorted\<close> and \<open>list.sort\<close>) is the lexicographic order on code points.
  On this range \<open>str.lower\<close>, \<open>str.isspace\<close> and \<open>str.strip\<close> are as defined below.
\<close>

definition isspace :: "char \<Rightarrow> bool" where
  "isspace c =
     (let n = (of_char c :: nat)
      in (9 \<le> n \<and> n \<le> 13) \<or> (28 \<le> n \<and> n \<le> 32) \<or> n = 133 \<or> n = 160)"

definition strip :: "string \<Rightarrow> string" where
  "strip s = rev (dropWhile isspace (rev (dropWhile isspace s)))"

definition lower_char :: "char \<Rightarrow> char" where
  "lower_char c =
     (let n = (of_char c :: nat)
      in if (65 \<le> n \<and> n \<le> 90) \<or> (192 \<le> n \<and> n \<le> 222 \<and> n \<noteq> 215)
         then char_of (n + 32) else c)"

definition lower :: "string \<Rightarrow> string" where
  "lower s = map lower_char s"




section \<open>Data model\<close>

text \<open>
  The stored documents are JSON objects. An item is an object with the keys \<open>name\<close>,
  \<open>priority\<close> and \<open>is_completed\<close>; a list is an object with the keys \<open>name\<close> and
  \<open>items\<close>. A Python dict keeps its keys in insertion order (\<open>next(iter(d))\<close> is the
  oldest key), so the \<open>lists\<close> dict is an association list: assignment to a present key
  keeps its place, assignment to a new key appends, \<open>del\<close> keeps the order of the rest.
  A key of a domain document that may be absent is an \<open>option\<close>.
\<close>

record item =
  name :: string
  priority :: string
  is_completed :: bool

record list_data =
  list_name :: string
  items :: "item list"

record data =
  settings :: "(string \<times> string) list option"
  current_list_id :: "string option"
  lists :: "(string \<times> list_data) list option"
  tasks :: "item list option"

text \<open>The three keys of the client storage; \<open>None\<close> is a key never written.\<close>

record client_storage =
  todo_key :: "data option"
  shopping_key :: "data option"
  user_suggestions_key :: "string list option"

record data_manager =
  todo_data :: data
  shopping_data :: data
  user_suggestions_data :: "string list"
  storage :: client_storage

datatype error = KeyError | StopIteration

datatype 'a result = Raised error | Returned 'a

definition DEFAULT_TODO_DATA :: data where
  "DEFAULT_TODO_DATA =
     \<lparr>settings = Some [(''language'', ''en''), (''mode'', ''todo''), (''theme_mode'', ''dark'')],
      current_list_id = Some ''default'',
      lists = Some [(''default'', \<lparr>list_name = ''Allgemein'', items = []\<rparr>)],
      tasks = None\<rparr>"

definition DEFAULT_SHOPPING_DATA :: data where
  "DEFAULT_SHOPPING_DATA =
     \<lparr>settings = None,
      current_list_id = Some ''default'',
      lists = Some [(''default'', \<lparr>list_name = ''Einkaufsliste'', items = []\<rparr>)],
      tasks = None\<rparr>"

section \<open>Persistence\<close>

text \<open>
  \<open>client_storage.set\<close> stores a serialised copy of the document. A failing write is
  outside the model: every write succeeds.
\<close>

definition save_todo :: "data_manager \<Rightarrow> data_manager" where
  "save_todo dm = dm\<lparr>storage := (storage dm)\<lparr>todo_key := Some (todo_data dm)\<rparr>\<rparr>"

definition save_shopping :: "data_manager \<Rightarrow> data_manager" where
  "save_shopping dm = dm\<lparr>storage := (storage dm)\<lparr>shopping_key := Some (shopping_data dm)\<rparr>\<rparr>"

definition save_user_suggestions :: "data_manager \<Rightarrow> data_manager" where
  "save_user_suggestions dm =
     dm\<lparr>storage := (storage dm)\<lparr>user_suggestions_key := Some (user_suggestions_data dm)\<rparr>\<rparr>"

text \<open>
  \<open>data = self.shopping_data if mode == "shopping" else self.todo_data\<close> binds the
  document itself, and the operations mutate it in place: the model reads the document,
  and writes the changed one back. Every mode other than \<open>"shopping"\<close> selects the todo
  document.
\<close>

definition data_of :: "string \<Rightarrow> data_manager \<Rightarrow> data" where
  "data_of mode dm = (if mode = ''shopping'' then shopping_data dm else todo_data dm)"

definition set_data :: "string \<Rightarrow> data \<Rightarrow> data_manager \<Rightarrow> data_manager" where
  "set_data mode d dm =
     (if mode = ''shopping'' then dm\<lparr>shopping_data := d\<rparr> else dm\<lparr>todo_data := d\<rparr>)"

definition save :: "string \<Rightarrow> data_manager \<Rightarrow> data_manager" where
  "save mode dm = (if mode = ''shopping'' then save_shopping dm else save_todo dm)"

section \<open>Suggestions\<close>

text \<open>
  \<open>SUGGESTIONS\<close> is the static list of \<open>utils.suggestions\<close>; it is a parameter of the
  functions that read it.
\<close>

definition learn_suggestion :: "string list \<Rightarrow> string \<Rightarrow> data_manager \<Rightarrow> data_manager" where
  "learn_suggestion SUGGESTIONS item_name dm =
     (if item_name = [] \<or> length item_name < 2 then dm
      else if list_ex (\<lambda>s. lower s = lower item_name) SUGGESTIONS then dm
      else if list_ex (\<lambda>s. lower s = lower item_name) (user_suggestions_data dm) then dm
      else save_user_suggestions
             (dm\<lparr>user_suggestions_data := sort (user_suggestions_data dm @ [item_name])\<rparr>))"

definition get_all_suggestions :: "string list \<Rightarrow> data_manager \<Rightarrow> string list" where
  "get_all_suggestions SUGGESTIONS dm = sort (remdups (SUGGESTIONS @ user_suggestions_data dm))"

section \<open>Settings\<close>

text \<open>
  The settings live in the todo document. \<open>update_setting\<close> indexes the key
  \<open>settings\<close>, which raises \<open>KeyError\<close> when the document has none.
\<close>

definition get_settings :: "data_manager \<Rightarrow> (string \<times> string) list" where
  "get_settings dm =
     (case settings (todo_data dm) of
        None \<Rightarrow> [(''language'', ''en''), (''mode'', ''todo''), (''theme_mode'', ''dark'')]
      | Some st \<Rightarrow> st)"

definition update_setting :: "string \<Rightarrow> string \<Rightarrow> data_manager \<Rightarrow> unit result \<times> data_manager" where
  "update_setting key val dm =
     (case settings (todo_data dm) of
        None \<Rightarrow> (Raised KeyError, dm)
      | Some st \<Rightarrow>
          (Returned (),
           save_todo (dm\<lparr>todo_data := (todo_data dm)\<lparr>settings := Some (AList.update key val st)\<rparr>\<rparr>)))"

section \<open>List management\<close>

definition has_key :: "('k \<times> 'v) list \<Rightarrow> 'k \<Rightarrow> bool" where
  "has_key d k = (k \<in> set (map fst d))"

definition get_lists :: "string \<Rightarrow> data_manager \<Rightarrow> (string \<times> string) list" where
  "get_lists mode dm =
     map (\<lambda>(l_id, l_data). (l_id, list_name l_data))
       (case lists (data_of mode dm) of None \<Rightarrow> [] | Some ls \<Rightarrow> ls)"

definition get_current_list_id :: "string \<Rightarrow> data_manager \<Rightarrow> string" where
  "get_current_list_id mode dm =
     (case current_list_id (data_of mode dm) of None \<Rightarrow> ''default'' | Some c \<Rightarrow> c)"

definition set_current_list_id :: "string \<Rightarrow> string \<Rightarrow> data_manager \<Rightarrow> data_manager" where
  "set_current_list_id list_id mode dm =
     (let d = data_of mode dm
      in case lists d of
           None \<Rightarrow> dm
         | Some ls \<Rightarrow>
             if has_key ls list_id
             then save mode (set_data mode (d\<lparr>current_list_id := Some list_id\<rparr>) dm)
             else dm)"

text \<open>\<open>new_id\<close> is the token \<open>str(uuid.uuid4())[:8]\<close>, drawn by the caller.\<close>

definition create_list :: "string \<Rightarrow> string \<Rightarrow> string \<Rightarrow> data_manager \<Rightarrow> string \<times> data_manager" where
  "create_list new_id nm mode dm =
     (let d = data_of mode dm;
          ls = (case lists d of None \<Rightarrow> [] | Some ls \<Rightarrow> ls);
          d1 = d\<lparr>lists := Some (AList.update new_id \<lparr>list_name = nm, items = []\<rparr> ls)\<rparr>;
          dm1 = set_current_list_id new_id mode (set_data mode d1 dm)
      in (new_id, save mode dm1))"

definition rename_list :: "string \<Rightarrow> string \<Rightarrow> string \<Rightarrow> data_manager \<Rightarrow> data_manager" where
  "rename_list list_id new_name mode dm =
     (let d = data_of mode dm
      in case lists d of
           None \<Rightarrow> dm
         | Some ls \<Rightarrow>
             if has_key ls list_id
             then save mode (set_data mode
                    (d\<lparr>lists := Some (AList.map_entry list_id (\<lambda>l. l\<lparr>list_name := new_name\<rparr>) ls)\<rparr>) dm)
             else dm)"

definition delete_list :: "string \<Rightarrow> string \<Rightarrow> data_manager \<Rightarrow> bool result \<times> data_manager" where
  "delete_list list_id mode dm =
     (if list_id = ''default'' then (Returned False, dm)
      else
        let d = data_of mode dm
        in if length (case lists d of None \<Rightarrow> [] | Some ls \<Rightarrow> ls) \<le> 1 then (Returned False, dm)
           else case lists d of
                  None \<Rightarrow> (Returned False, dm)
                | Some ls \<Rightarrow>
                    if has_key ls list_id
                    then
                      let ls1 = AList.delete list_id ls;
                          d1 = d\<lparr>lists := Some ls1\<rparr>
                      in if current_list_id d1 = Some list_id
                         then (case ls1 of
                                 [] \<Rightarrow> (Raised StopIteration, set_data mode d1 dm)
                               | (first_key, _) # _ \<Rightarrow>
                                   (Returned True,
                                    save mode (set_data mode (d1\<lparr>current_list_id := Some first_key\<rparr>) dm)))
                         else (Returned True, save mode (set_data mode d1 dm))
                    else (Returned False, dm))"

section \<open>Tasks\<close>

text \<open>\<open>data["lists"][current_id]["items"]\<close>: a missing key raises \<open>KeyError\<close>.\<close>

definition lookup_items :: "data \<Rightarrow> string \<Rightarrow> item list result" where
  "lookup_items d current_id =
     (case lists d of
        None \<Rightarrow> Raised KeyError
      | Some ls \<Rightarrow>
          (case map_of ls current_id of
             None \<Rightarrow> Raised KeyError
           | Some l \<Rightarrow> Returned (items l)))"

text \<open>The assignment \<open>data["lists"][current_id]["items"] = v\<close>, once the lookup succeeded.\<close>

definition set_items :: "data \<Rightarrow> string \<Rightarrow> item list \<Rightarrow> data" where
  "set_items d current_id v =
     d\<lparr>lists := map_option (AList.map_entry current_id (\<lambda>l. l\<lparr>items := v\<rparr>)) (lists d)\<rparr>"


text \<open>
  Step 1 of \<open>add_task\<close> (normalisation): the first entry of \<open>get_all_suggestions\<close> whose
  lowercase form is that of the trimmed name replaces it.
\<close>

definition normalize_name :: "string list \<Rightarrow> data_manager \<Rightarrow> string \<Rightarrow> string" where
  "normalize_name SUGGESTIONS dm clean_name =
     (case find (\<lambda>suggestion. lower suggestion = lower clean_name)
             (get_all_suggestions SUGGESTIONS dm) of
        None \<Rightarrow> clean_name
      | Some suggestion \<Rightarrow> suggestion)"

definition add_task ::
  "string list \<Rightarrow> string \<Rightarrow> string \<Rightarrow> bool \<Rightarrow> string \<Rightarrow> data_manager
     \<Rightarrow> item option result \<times> data_manager" where
  "add_task SUGGESTIONS task_name prio completed mode dm =
     (let clean_name = strip task_name
      in if clean_name = [] then (Returned None, dm)
         else
           let clean_name = normalize_name SUGGESTIONS dm clean_name;
               dm1 = (if mode = ''shopping'' then learn_suggestion SUGGESTIONS clean_name dm else dm);
               current_id = get_current_list_id mode dm1
           in case lookup_items (data_of mode dm1) current_id of
                Raised e \<Rightarrow> (Raised e, dm1)
              | Returned current_items \<Rightarrow>
                  if list_ex (\<lambda>item. lower (name item) = lower clean_name) current_items
                  then (Returned None, dm1)
                  else
                    let new_task = \<lparr>name = clean_name, priority = prio, is_completed = completed\<rparr>
                    in (Returned (Some new_task),
                        save mode (set_data mode
                          (set_items (data_of mode dm1) current_id (current_items @ [new_task])) dm1)))"

text \<open>The loop of \<open>update_task_status\<close>: the first task of that name is changed, then \<open>break\<close>.\<close>

fun mark_first :: "string \<Rightarrow> bool \<Rightarrow> item list \<Rightarrow> item list" where
  "mark_first task_name completed [] = []"
| "mark_first task_name completed (task # rest) =
     (if name task = task_name then task\<lparr>is_completed := completed\<rparr> # rest
      else task # mark_first task_name completed rest)"

definition update_task_status :: "string \<Rightarrow> bool \<Rightarrow> string \<Rightarrow> data_manager \<Rightarrow> unit result \<times> data_manager" where
  "update_task_status task_name completed mode dm =
     (let current_id = get_current_list_id mode dm
      in case lookup_items (data_of mode dm) current_id of
           Raised e \<Rightarrow> (Raised e, dm)
         | Returned task_list \<Rightarrow>
             (Returned (),
              save mode (set_data mode
                (set_items (data_of mode dm) current_id (mark_first task_name completed task_list)) dm)))"

definition delete_task :: "string \<Rightarrow> string \<Rightarrow> data_manager \<Rightarrow> unit result \<times> data_manager" where
  "delete_task task_name mode dm =
     (let current_id = get_current_list_id mode dm
      in case lookup_items (data_of mode dm) current_id of
           Raised e \<Rightarrow> (Raised e, dm)
         | Returned old_items \<Rightarrow>
             (Returned (),
              save mode (set_data mode
                (set_items (data_of mode dm) current_id
                   (filter (\<lambda>t. name t \<noteq> task_name) old_items)) dm)))"

definition clear_tasks :: "string \<Rightarrow> data_manager \<Rightarrow> unit result \<times> data_manager" where
  "clear_tasks mode dm =
     (let current_id = get_current_list_id mode dm
      in case lookup_items (data_of mode dm) current_id of
           Raised e \<Rightarrow> (Raised e, dm)
         | Returned _ \<Rightarrow>
             (Returned (),
              save mode (set_data mode (set_items (data_of mode dm) current_id []) dm)))"

definition clear_completed_tasks :: "string \<Rightarrow> data_manager \<Rightarrow> unit result \<times> data_manager" where
  "clear_completed_tasks mode dm =
     (let current_id = get_current_list_id mode dm;
          d = data_of mode dm
      in case lists d of
           None \<Rightarrow> (Raised KeyError, dm)
         | Some ls \<Rightarrow>
             (case map_of ls current_id of
                None \<Rightarrow> (Returned (), dm)
              | Some l \<Rightarrow>
                  (Returned (),
                   save mode (set_data mode
                     (set_items d current_id (filter (\<lambda>t. \<not> is_completed t) (items l))) dm))))"

definition clear_shopping_cart :: "data_manager \<Rightarrow> unit result \<times> data_manager" where
  "clear_shopping_cart dm =
     (let current_id = get_current_list_id ''shopping'' dm
      in case lists (shopping_data dm) of
           None \<Rightarrow> (Raised KeyError, dm)
         | Some ls \<Rightarrow>
             (case map_of ls current_id of
                None \<Rightarrow> (Returned (), dm)
              | Some l \<Rightarrow>
                  (Returned (),
                   save_shopping (dm\<lparr>shopping_data :=
                     set_items (shopping_data dm) current_id
                       (filter (\<lambda>t. \<not> is_completed t) (items l))\<rparr>))))"

section \<open>Migrations at start-up\<close>

text \<open>
  The integrity checks of \<open>__init__\<close>, run on the documents once they are loaded. A
  document without the key \<open>lists\<close> gets a \<open>default\<close> list made of its flat \<open>tasks\<close>
  array; then the name of the \<open>default\<close> list is normalised. Of the four legacy names
  of the shopping list, the last two contain code points above U+00FF and equal no string
  of the modelled range, so the membership test is the one on the first two.
\<close>

definition migrate_structure :: "data \<Rightarrow> data" where
  "migrate_structure d =
     (let old_tasks = (case tasks d of None \<Rightarrow> [] | Some ts \<Rightarrow> ts)
      in d\<lparr>current_list_id := Some ''default'',
           lists := Some [(''default'', \<lparr>list_name = ''Allgemein'', items = old_tasks\<rparr>)],
           tasks := None\<rparr>)"

definition set_default_name :: "data \<Rightarrow> data" where
  "set_default_name d =
     d\<lparr>lists := map_option (AList.map_entry ''default'' (\<lambda>l. l\<lparr>list_name := ''Allgemein''\<rparr>)) (lists d)\<rparr>"

definition default_name :: "data \<Rightarrow> string option" where
  "default_name d =
     (case lists d of
        None \<Rightarrow> None
      | Some ls \<Rightarrow> (case map_of ls ''default'' of None \<Rightarrow> None | Some l \<Rightarrow> Some (list_name l)))"

definition migrate_shopping :: "data_manager \<Rightarrow> data_manager" where
  "migrate_shopping dm =
     (if lists (shopping_data dm) = None
      then save_shopping (dm\<lparr>shopping_data := migrate_structure (shopping_data dm)\<rparr>)
      else dm)"

definition migrate_todo :: "data_manager \<Rightarrow> data_manager" where
  "migrate_todo dm =
     (if lists (todo_data dm) = None
      then save_todo (dm\<lparr>todo_data := migrate_structure (todo_data dm)\<rparr>)
      else dm)"

definition normalize_shopping_name :: "data_manager \<Rightarrow> data_manager" where
  "normalize_shopping_name dm =
     (case default_name (shopping_data dm) of
        None \<Rightarrow> dm
      | Some n \<Rightarrow>
          if n \<in> set [''Einkaufsliste'', ''Shopping List'']
          then save_shopping (dm\<lparr>shopping_data := set_default_name (shopping_data dm)\<rparr>)
          else dm)"

definition normalize_todo_name :: "data_manager \<Rightarrow> data_manager" where
  "normalize_todo_name dm =
     (case default_name (todo_data dm) of
        None \<Rightarrow> dm
      | Some n \<Rightarrow>
          if n \<noteq> ''Allgemein''
          then save_todo (dm\<lparr>todo_data := set_default_name (todo_data dm)\<rparr>)
          else dm)"

text \<open>The four checks, in the order of the source.\<close>

definition run_migrations :: "data_manager \<Rightarrow> data_manager" where
  "run_migrations dm =
     normalize_todo_name (normalize_shopping_name (migrate_todo (migrate_shopping dm)))"

section \<open>Normalisation as the specification words it\<close>

text \<open>
  The rule of the specification: the entries are met in the order of the static list,
  then of the learned list, and the first one that matches gives the casing.
\<close>

definition spec_normalize_name :: "string list \<Rightarrow> data_manager \<Rightarrow> string \<Rightarrow> string" where
  "spec_normalize_name SUGGESTIONS dm clean_name =
     (case find (\<lambda>suggestion. lower suggestion = lower clean_name)
             (SUGGESTIONS @ user_suggestions_data dm) of
        None \<Rightarrow> clean_name
      | Some suggestion \<Rightarrow> suggestion)"

section \<open>The invariant of a domain document\<close>

text \<open>
  The lists of a domain are a dict (its keys are distinct) that has the key \<open>default\<close>,
  and the current list id, as \<open>_get_current_list_id\<close> reads it, is one of its keys.
\<close>

definition collection_inv :: "data \<Rightarrow> bool" where
  "collection_inv d =
     (case lists d of
        None \<Rightarrow> False
      | Some ls \<Rightarrow>
          distinct (map fst ls) \<and> has_key ls ''default''
          \<and> has_key ls (case current_list_id d of None \<Rightarrow> ''default'' | Some c \<Rightarrow> c))"

text \<open>Two modes select the same document.\<close>

definition same_domain :: "string \<Rightarrow> string \<Rightarrow> bool" where
  "same_domain m mode = ((m = ''shopping'') = (mode = ''shopping''))"

section \<open>What an operation leaves alone\<close>

text \<open>
  The document of the other domain, in memory and in the client storage, is the same in
  both stores.
\<close>

definition unchanged_other :: "string \<Rightarrow> data_manager \<Rightarrow> data_manager \<Rightarrow> bool" where
  "unchanged_other mode dm dm' =
     ((mode = ''shopping'' \<longrightarrow>
         todo_data dm' = todo_data dm \<and> todo_key (storage dm') = todo_key (storage dm))
      \<and> (mode \<noteq> ''shopping'' \<longrightarrow>
         shopping_data dm' = shopping_data dm
         \<and> shopping_key (storage dm') = shopping_key (storage dm)))"

section \<open>Example stores\<close>

text \<open>Concrete stores on which the theorems below are instantiated.\<close>

definition two_lists :: "(string \<times> list_data) list" where
  "two_lists =
     [(''default'', \<lparr>list_name = ''Allgemein'', items = []\<rparr>),
      (''a1b2c3d4'', \<lparr>list_name = ''Urlaub'', items = []\<rparr>)]"

definition fresh_store :: data_manager where
  "fresh_store =
     \<lparr>todo_data = DEFAULT_TODO_DATA, shopping_data = DEFAULT_SHOPPING_DATA,
      user_suggestions_data = [],
      storage = \<lparr>todo_key = Some DEFAULT_TODO_DATA, shopping_key = Some DEFAULT_SHOPPING_DATA,
                 user_suggestions_key = Some []\<rparr>\<rparr>"

definition two_list_store :: data_manager where
  "two_list_store =
     fresh_store\<lparr>todo_data := DEFAULT_TODO_DATA\<lparr>lists := Some two_lists, current_list_id := Some ''a1b2c3d4''\<rparr>\<rparr>"

definition milk_store :: data_manager where
  "milk_store =
     fresh_store\<lparr>shopping_data := DEFAULT_SHOPPING_DATA\<lparr>lists :=
       Some [(''default'',
              \<lparr>list_name = ''Allgemein'',
               items = [\<lparr>name = ''milk'', priority = ''medium'', is_completed = False\<rparr>,
                        \<lparr>name = ''Milk'', priority = ''medium'', is_completed = False\<rparr>,
                        \<lparr>name = ''Milk'', priority = ''medium'', is_completed = False\<rparr>]\<rparr>)]\<rparr>\<rparr>"

definition legacy_store :: data_manager where
  "legacy_store =
     \<lparr>todo_data =
        \<lparr>settings = Some [(''language'', ''de'')], current_list_id = None, lists = None,
         tasks = Some [\<lparr>name = ''Steuer'', priority = ''urgent'', is_completed = False\<rparr>]\<rparr>,
      shopping_data = DEFAULT_SHOPPING_DATA,
      user_suggestions_data = [],
      storage = \<lparr>todo_key = None, shopping_key = None, user_suggestions_key = Some []\<rparr>\<rparr>"

definition migrated_todo_data :: data where
  "migrated_todo_data =
     \<lparr>settings = Some [(''language'', ''de'')], current_list_id = Some ''default'',
      lists = Some [(''default'',
                     \<lparr>list_name = ''Allgemein'',
                      items = [\<lparr>name = ''Steuer'', priority = ''urgent'', is_completed = False\<rparr>]\<rparr>)],
      tasks = None\<rparr>"

definition migrated_shopping_data :: data where
  "migrated_shopping_data =
     \<lparr>settings = None, current_list_id = Some ''default'',
      lists = Some [(''default'', \<lparr>list_name = ''Allgemein'', items = []\<rparr>)],
      tasks = None\<rparr>"

definition variants_store :: data_manager where
  "variants_store = fresh_store\<lparr>user_suggestions_data := [''Milk'']\<rparr>"

section \<open>Basic facts\<close>

lemma data_of_set_data [simp]: "data_of mode (set_data mode d dm) = d"
  by (simp add: data_of_def set_data_def)

lemma data_of_save [simp]: "data_of mode (save mode' dm) = data_of mode dm"
  by (simp add: data_of_def save_def save_todo_def save_shopping_def)

lemma has_key_delete: "has_key (AList.delete k ls) k' = (k' \<noteq> k \<and> has_key ls k')"
  by (auto simp: has_key_def AList.delete_eq)

lemma length_delete_distinct:
  "distinct (map fst ls) \<Longrightarrow> has_key ls k \<Longrightarrow> Suc (length (AList.delete k ls)) = length ls"
proof (induction ls)
  case Nil
  then show ?case by (simp add: has_key_def)
next
  case (Cons p ls)
  show ?case
  proof (cases "fst p = k")
    case True
    with Cons.prems have "k \<notin> fst ` set ls" by auto
    then have "AList.delete k ls = ls" by simp
    with True show ?thesis by (cases p) simp
  next
    case False
    with Cons show ?thesis by (cases p) (auto simp: has_key_def)
  qed
qed

lemma delete_list_success:
  assumes ls: "lists (data_of mode dm) = Some ls"
    and dist: "distinct (map fst ls)"
    and len: "2 \<le> length ls"
    and key: "has_key ls list_id"
    and nd: "list_id \<noteq> ''default''"
  shows "fst (delete_list list_id mode dm) = Returned True"
    and "lists (data_of mode (snd (delete_list list_id mode dm))) = Some (AList.delete list_id ls)"
    and "current_list_id (data_of mode (snd (delete_list list_id mode dm))) =
           (if current_list_id (data_of mode dm) = Some list_id
            then Some (fst (hd (AList.delete list_id ls)))
            else current_list_id (data_of mode dm))"
proof -
  from length_delete_distinct [OF dist key] len
  obtain k v rest where d: "AList.delete list_id ls = (k, v) # rest"
    by (cases "AList.delete list_id ls") auto
  show "fst (delete_list list_id mode dm) = Returned True"
    using ls len key nd d by (simp add: delete_list_def Let_def)
  show "lists (data_of mode (snd (delete_list list_id mode dm))) = Some (AList.delete list_id ls)"
    using ls len key nd d by (simp add: delete_list_def Let_def)
  show "current_list_id (data_of mode (snd (delete_list list_id mode dm))) =
           (if current_list_id (data_of mode dm) = Some list_id
            then Some (fst (hd (AList.delete list_id ls)))
            else current_list_id (data_of mode dm))"
    using ls len key nd d by (simp add: delete_list_def Let_def)
qed

subsection \<open>The effect of each operation on a document\<close>

lemma data_of_set_data_if:
  "data_of m (set_data mode d dm) = (if same_domain m mode then d else data_of m dm)"
  by (simp add: data_of_def set_data_def same_domain_def)

lemma data_of_learn [simp]: "data_of m (learn_suggestion S n dm) = data_of m dm"
  by (simp add: learn_suggestion_def data_of_def save_user_suggestions_def)

lemma data_of_same: "same_domain m mode \<Longrightarrow> data_of m dm = data_of mode dm"
  by (auto simp: data_of_def same_domain_def)

lemma inv_set_items: "collection_inv d \<Longrightarrow> collection_inv (set_items d k v)"
  by (auto simp: collection_inv_def set_items_def has_key_def dom_map_entry distinct_map_entry
      split: option.splits)

lemma inv_set_current:
  "lists d = Some ls \<Longrightarrow> has_key ls k \<Longrightarrow> collection_inv d \<Longrightarrow> collection_inv (d\<lparr>current_list_id := Some k\<rparr>)"
  by (auto simp: collection_inv_def split: option.splits)

lemma set_current_list_id_data:
  "data_of m (set_current_list_id list_id mode dm) =
     (if same_domain m mode \<and> (\<exists>ls. lists (data_of mode dm) = Some ls \<and> has_key ls list_id)
      then (data_of mode dm)\<lparr>current_list_id := Some list_id\<rparr> else data_of m dm)"
  by (simp add: set_current_list_id_def Let_def data_of_set_data_if split: option.splits)

lemma rename_list_data:
  "data_of m (rename_list list_id new_name mode dm) =
     (if same_domain m mode \<and> (\<exists>ls. lists (data_of mode dm) = Some ls \<and> has_key ls list_id)
      then (data_of mode dm)\<lparr>lists := map_option (AList.map_entry list_id (\<lambda>l. l\<lparr>list_name := new_name\<rparr>)) (lists (data_of mode dm))\<rparr>
      else data_of m dm)"
  by (auto simp add: rename_list_def Let_def data_of_set_data_if split: option.splits)

lemma create_list_data:
  "data_of m (snd (create_list new_id nm mode dm)) =
     (if same_domain m mode
      then (data_of mode dm)\<lparr>lists := Some (AList.update new_id \<lparr>list_name = nm, items = []\<rparr>
                (case lists (data_of mode dm) of None \<Rightarrow> [] | Some ls \<Rightarrow> ls)),
              current_list_id := Some new_id\<rparr>
      else data_of m dm)"
  by (simp add: create_list_def Let_def set_current_list_id_data data_of_set_data_if has_key_def dom_update)


lemma delete_list_data:
  "data_of m (snd (delete_list list_id mode dm)) =
     (if same_domain m mode \<and> list_id \<noteq> ''default''
         \<and> (\<exists>ls. lists (data_of mode dm) = Some ls \<and> 2 \<le> length ls \<and> has_key ls list_id)
      then (data_of mode dm)
             \<lparr>lists := map_option (AList.delete list_id) (lists (data_of mode dm)),
              current_list_id :=
                (if current_list_id (data_of mode dm) = Some list_id
                 then (case AList.delete list_id (the (lists (data_of mode dm))) of
                         [] \<Rightarrow> Some list_id | p # _ \<Rightarrow> Some (fst p))
                 else current_list_id (data_of mode dm))\<rparr>
      else data_of m dm)"
proof (cases "lists (data_of mode dm)")
  case None
  then show ?thesis by (simp add: delete_list_def Let_def)
next
  case (Some ls)
  show ?thesis
  proof (cases "AList.delete list_id ls")
    case Nil
    with Some show ?thesis
      by (simp add: delete_list_def Let_def data_of_set_data_if not_le Suc_le_eq)
  next
    case (Cons p rest)
    with Some show ?thesis
      by (cases p) (simp add: delete_list_def Let_def data_of_set_data_if not_le Suc_le_eq)
  qed
qed

lemma task_update_data:
  "data_of m (save mode (set_data mode d dm)) = (if same_domain m mode then d else data_of m dm)"
  by (simp add: data_of_set_data_if)

lemma update_task_status_data:
  "data_of m (snd (update_task_status task_name completed mode dm)) =
     (if same_domain m mode
      then (case lookup_items (data_of mode dm) (get_current_list_id mode dm) of
              Raised e \<Rightarrow> data_of mode dm
            | Returned ts \<Rightarrow>
                set_items (data_of mode dm) (get_current_list_id mode dm)
                  (mark_first task_name completed ts))
      else data_of m dm)"
  by (simp add: update_task_status_def Let_def data_of_set_data_if data_of_same split: result.splits)

lemma delete_task_data:
  "data_of m (snd (delete_task task_name mode dm)) =
     (if same_domain m mode
      then (case lookup_items (data_of mode dm) (get_current_list_id mode dm) of
              Raised e \<Rightarrow> data_of mode dm
            | Returned ts \<Rightarrow>
                set_items (data_of mode dm) (get_current_list_id mode dm)
                  (filter (\<lambda>t. name t \<noteq> task_name) ts))
      else data_of m dm)"
  by (simp add: delete_task_def Let_def data_of_set_data_if data_of_same split: result.splits)

lemma clear_tasks_data:
  "data_of m (snd (clear_tasks mode dm)) =
     (if same_domain m mode
      then (case lookup_items (data_of mode dm) (get_current_list_id mode dm) of
              Raised e \<Rightarrow> data_of mode dm
            | Returned ts \<Rightarrow> set_items (data_of mode dm) (get_current_list_id mode dm) [])
      else data_of m dm)"
  by (simp add: clear_tasks_def Let_def data_of_set_data_if data_of_same split: result.splits)

lemma clear_completed_tasks_data:
  "data_of m (snd (clear_completed_tasks mode dm)) =
     (if same_domain m mode
      then (case lookup_items (data_of mode dm) (get_current_list_id mode dm) of
              Raised e \<Rightarrow> data_of mode dm
            | Returned ts \<Rightarrow>
                set_items (data_of mode dm) (get_current_list_id mode dm)
                  (filter (\<lambda>t. \<not> is_completed t) ts))
      else data_of m dm)"
  by (simp add: clear_completed_tasks_def lookup_items_def Let_def data_of_set_data_if data_of_same
      split: result.splits option.splits)

lemma clear_shopping_cart_eq: "clear_shopping_cart dm = clear_completed_tasks ''shopping'' dm"
  by (simp add: clear_shopping_cart_def clear_completed_tasks_def Let_def data_of_def set_data_def save_def
      split: option.splits)

lemma get_current_learn:
  "get_current_list_id mode (learn_suggestion S n dm) = get_current_list_id mode dm"
  by (simp add: get_current_list_id_def)

lemma add_task_data:
  "data_of m (snd (add_task S task_name prio completed mode dm)) =
     (if same_domain m mode \<and> strip task_name \<noteq> []
      then (case lookup_items (data_of mode dm) (get_current_list_id mode dm) of
              Raised e \<Rightarrow> data_of mode dm
            | Returned ts \<Rightarrow>
                if list_ex (\<lambda>t. lower (name t) = lower (normalize_name S dm (strip task_name))) ts
                then data_of mode dm
                else set_items (data_of mode dm) (get_current_list_id mode dm)
                       (ts @ [\<lparr>name = normalize_name S dm (strip task_name), priority = prio,
                               is_completed = completed\<rparr>]))
      else data_of m dm)"
  by (simp add: add_task_def Let_def data_of_set_data_if data_of_same get_current_learn split: result.splits)

subsection \<open>Preservation of the invariant\<close>

lemma inv_case_result:
  "collection_inv d \<Longrightarrow> (\<And>ts. collection_inv (f ts)) \<Longrightarrow>
   collection_inv (case r of Raised e \<Rightarrow> d | Returned ts \<Rightarrow> f ts)"
  by (cases r) simp_all

lemma has_key_map_entry [simp]: "has_key (AList.map_entry k f ls) k' = has_key ls k'"
  by (simp add: has_key_def dom_map_entry)

lemma has_key_update [simp]: "has_key (AList.update k v ls) k' = (k' = k \<or> has_key ls k')"
  by (auto simp: has_key_def dom_update)

lemma inv_set_current_list_id:
  "collection_inv (data_of m dm) \<Longrightarrow> collection_inv (data_of m (set_current_list_id list_id mode dm))"
  by (auto simp: set_current_list_id_data data_of_same inv_set_current)

lemma inv_rename_list:
  "collection_inv (data_of m dm) \<Longrightarrow> collection_inv (data_of m (rename_list list_id new_name mode dm))"
  by (auto simp: rename_list_data data_of_same collection_inv_def distinct_map_entry
      split: option.splits)

lemma inv_create_list:
  "collection_inv (data_of m dm) \<Longrightarrow> collection_inv (data_of m (snd (create_list new_id nm mode dm)))"
  by (auto simp: create_list_data data_of_same collection_inv_def distinct_update
      split: option.splits)

lemma inv_delete:
  assumes "collection_inv d" and "lists d = Some ls" and "list_id \<noteq> ''default''"
  shows "collection_inv (d\<lparr>lists := Some (AList.delete list_id ls),
              current_list_id :=
                (if current_list_id d = Some list_id
                 then (case AList.delete list_id ls of [] \<Rightarrow> Some list_id | p # _ \<Rightarrow> Some (fst p))
                 else current_list_id d)\<rparr>)"
proof -
  from assms have d: "distinct (map fst ls)" and df: "has_key ls ''default''"
    and cur: "has_key ls (case current_list_id d of None \<Rightarrow> ''default'' | Some c \<Rightarrow> c)"
    by (auto simp: collection_inv_def)
  have dd: "distinct (map fst (AList.delete list_id ls))" using d by (rule distinct_delete)
  have df': "has_key (AList.delete list_id ls) ''default''"
    using df assms(3) by (simp add: has_key_delete)
  then obtain p rest where pr: "AList.delete list_id ls = p # rest"
    by (cases "AList.delete list_id ls") (auto simp: has_key_def)
  then have hd: "has_key (AList.delete list_id ls) (fst p)" by (simp add: has_key_def)
  show ?thesis
  proof (cases "current_list_id d = Some list_id")
    case True
    with dd df' hd pr show ?thesis by (simp add: collection_inv_def)
  next
    case False
    with cur assms(3) have "has_key (AList.delete list_id ls)
        (case current_list_id d of None \<Rightarrow> ''default'' | Some c \<Rightarrow> c)"
      by (auto simp: has_key_delete split: option.splits)
    with False dd df' show ?thesis by (simp add: collection_inv_def)
  qed
qed

lemma inv_delete_list:
  "collection_inv (data_of m dm) \<Longrightarrow> collection_inv (data_of m (snd (delete_list list_id mode dm)))"
  using inv_delete [of "data_of mode dm" _ list_id]
  by (auto simp: delete_list_data data_of_same)

lemma inv_update_task_status:
  "collection_inv (data_of m dm) \<Longrightarrow>
   collection_inv (data_of m (snd (update_task_status task_name completed mode dm)))"
  by (auto simp: update_task_status_data data_of_same intro!: inv_case_result inv_set_items)

lemma inv_delete_task:
  "collection_inv (data_of m dm) \<Longrightarrow> collection_inv (data_of m (snd (delete_task task_name mode dm)))"
  by (auto simp: delete_task_data data_of_same intro!: inv_case_result inv_set_items)

lemma inv_clear_tasks:
  "collection_inv (data_of m dm) \<Longrightarrow> collection_inv (data_of m (snd (clear_tasks mode dm)))"
  by (auto simp: clear_tasks_data data_of_same intro!: inv_case_result inv_set_items)

lemma inv_clear_completed_tasks:
  "collection_inv (data_of m dm) \<Longrightarrow> collection_inv (data_of m (snd (clear_completed_tasks mode dm)))"
  by (auto simp: clear_completed_tasks_data data_of_same intro!: inv_case_result inv_set_items)

lemma inv_add_task:
  "collection_inv (data_of m dm) \<Longrightarrow>
   collection_inv (data_of m (snd (add_task S task_name prio completed mode dm)))"
  by (auto simp: add_task_data data_of_same intro!: inv_case_result inv_set_items)

lemma inv_update_setting:
  "collection_inv (data_of m dm) \<Longrightarrow> collection_inv (data_of m (snd (update_setting key val dm)))"
proof (cases "settings (todo_data dm)")
  case None
  then show "collection_inv (data_of m dm) \<Longrightarrow> ?thesis" by (simp add: update_setting_def)
next
  case (Some st)
  then show "collection_inv (data_of m dm) \<Longrightarrow> ?thesis"
    by (cases "m = ''shopping''")
      (simp_all add: update_setting_def data_of_def save_todo_def collection_inv_def
         cong: option.case_cong)
qed

lemma delete_list_TrueD:
  assumes "fst (delete_list list_id mode dm) = Returned True"
  shows "list_id \<noteq> ''default'' \<and>
         (\<exists>ls. lists (data_of mode dm) = Some ls \<and> 2 \<le> length ls \<and> has_key ls list_id)"
proof (cases "lists (data_of mode dm)")
  case None
  with assms show ?thesis by (simp add: delete_list_def Let_def split: if_splits)
next
  case (Some ls)
  with assms show ?thesis
    by (auto simp: delete_list_def Let_def split: if_splits)
qed

lemma current_after_delete_list:
  assumes inv: "collection_inv (data_of mode dm)"
    and ok: "fst (delete_list list_id mode dm) = Returned True"
  shows "has_key (case lists (data_of mode (snd (delete_list list_id mode dm))) of
                    None \<Rightarrow> [] | Some ls \<Rightarrow> ls)
           (get_current_list_id mode (snd (delete_list list_id mode dm)))
         \<and> get_current_list_id mode (snd (delete_list list_id mode dm)) \<noteq> list_id"
proof -
  let ?dm' = "snd (delete_list list_id mode dm)"
  from delete_list_TrueD [OF ok] obtain ls where nd: "list_id \<noteq> ''default''"
    and ls: "lists (data_of mode dm) = Some ls" and len: "2 \<le> length ls" and key: "has_key ls list_id"
    by blast
  have l': "lists (data_of mode ?dm') = Some (AList.delete list_id ls)"
    using nd ls len key by (simp add: delete_list_data same_domain_def)
  from inv_delete_list [OF inv, of list_id mode]
  have "collection_inv (data_of mode ?dm')" .
  with l' have h: "has_key (AList.delete list_id ls) (get_current_list_id mode ?dm')"
    by (simp add: collection_inv_def get_current_list_id_def)
  then have "get_current_list_id mode ?dm' \<noteq> list_id"
    by (simp add: has_key_delete)
  with h l' show ?thesis by simp
qed

subsection \<open>Frame of each operation\<close>

lemma fields_save [simp]:
  "todo_data (save mode dm) = todo_data dm"
  "shopping_data (save mode dm) = shopping_data dm"
  "user_suggestions_data (save mode dm) = user_suggestions_data dm"
  "user_suggestions_key (storage (save mode dm)) = user_suggestions_key (storage dm)"
  "todo_key (storage (save mode dm)) =
     (if mode = ''shopping'' then todo_key (storage dm) else Some (todo_data dm))"
  "shopping_key (storage (save mode dm)) =
     (if mode = ''shopping'' then Some (shopping_data dm) else shopping_key (storage dm))"
  by (simp_all add: save_def save_todo_def save_shopping_def)

lemma fields_set_data [simp]:
  "todo_data (set_data mode d dm) = (if mode = ''shopping'' then todo_data dm else d)"
  "shopping_data (set_data mode d dm) = (if mode = ''shopping'' then d else shopping_data dm)"
  "user_suggestions_data (set_data mode d dm) = user_suggestions_data dm"
  "storage (set_data mode d dm) = storage dm"
  by (simp_all add: set_data_def)

lemma fields_learn [simp]:
  "todo_data (learn_suggestion S n dm) = todo_data dm"
  "shopping_data (learn_suggestion S n dm) = shopping_data dm"
  "todo_key (storage (learn_suggestion S n dm)) = todo_key (storage dm)"
  "shopping_key (storage (learn_suggestion S n dm)) = shopping_key (storage dm)"
  by (simp_all add: learn_suggestion_def save_user_suggestions_def)

lemma frame_set_current_list_id:
  "unchanged_other mode dm (set_current_list_id list_id mode dm)"
  "user_suggestions_data (set_current_list_id list_id mode dm) = user_suggestions_data dm"
  by (simp_all add: unchanged_other_def set_current_list_id_def Let_def split: option.splits)

lemma frame_rename_list:
  "unchanged_other mode dm (rename_list list_id new_name mode dm)"
  "user_suggestions_data (rename_list list_id new_name mode dm) = user_suggestions_data dm"
  by (simp_all add: unchanged_other_def rename_list_def Let_def split: option.splits)

lemma frame_create_list:
  "unchanged_other mode dm (snd (create_list new_id nm mode dm))"
  "user_suggestions_data (snd (create_list new_id nm mode dm)) = user_suggestions_data dm"
  by (simp_all add: unchanged_other_def create_list_def set_current_list_id_def Let_def data_of_def
      split: option.splits)

lemma frame_delete_list:
  "unchanged_other mode dm (snd (delete_list list_id mode dm))"
  "user_suggestions_data (snd (delete_list list_id mode dm)) = user_suggestions_data dm"
  by (simp_all add: unchanged_other_def delete_list_def Let_def split: option.splits list.splits)

lemma frame_update_task_status:
  "unchanged_other mode dm (snd (update_task_status task_name completed mode dm))"
  "user_suggestions_data (snd (update_task_status task_name completed mode dm)) = user_suggestions_data dm"
  by (simp_all add: unchanged_other_def update_task_status_def Let_def split: result.splits)

lemma frame_delete_task:
  "unchanged_other mode dm (snd (delete_task task_name mode dm))"
  "user_suggestions_data (snd (delete_task task_name mode dm)) = user_suggestions_data dm"
  by (simp_all add: unchanged_other_def delete_task_def Let_def split: result.splits)

lemma frame_clear_tasks:
  "unchanged_other mode dm (snd (clear_tasks mode dm))"
  "user_suggestions_data (snd (clear_tasks mode dm)) = user_suggestions_data dm"
  by (simp_all add: unchanged_other_def clear_tasks_def Let_def split: result.splits)

lemma frame_clear_completed_tasks:
  "unchanged_other mode dm (snd (clear_completed_tasks mode dm))"
  "user_suggestions_data (snd (clear_completed_tasks mode dm)) = user_suggestions_data dm"
  by (simp_all add: unchanged_other_def clear_completed_tasks_def Let_def split: option.splits)

lemma frame_add_task:
  "unchanged_other mode dm (snd (add_task S task_name prio completed mode dm))"
  "mode \<noteq> ''shopping'' \<Longrightarrow>
     user_suggestions_data (snd (add_task S task_name prio completed mode dm)) = user_suggestions_data dm"
  by (simp_all add: unchanged_other_def add_task_def Let_def split: result.splits)

lemma delete_list_no_raise:
  assumes "distinct (map fst (case lists (data_of mode dm) of None \<Rightarrow> [] | Some ls \<Rightarrow> ls))"
  shows "fst (delete_list list_id mode dm) \<noteq> Raised e"
proof (cases "lists (data_of mode dm)")
  case None
  then show ?thesis by (simp add: delete_list_def Let_def)
next
  case (Some ls)
  show ?thesis
  proof (cases "list_id \<noteq> ''default'' \<and> 2 \<le> length ls \<and> has_key ls list_id")
    case True
    with Some assms delete_list_success(1) [of mode dm ls list_id] show ?thesis by simp
  next
    case False
    with Some show ?thesis by (auto simp: delete_list_def Let_def)
  qed
qed

subsection \<open>Items of a list\<close>

lemma mark_first_none:
  "\<forall>t\<in>set xs. name t \<noteq> n \<Longrightarrow> mark_first n c xs = xs"
  by (induction xs) simp_all

lemma mark_first_at:
  "i < length xs \<Longrightarrow> name (xs ! i) = n \<Longrightarrow> \<forall>j<i. name (xs ! j) \<noteq> n \<Longrightarrow>
   mark_first n c xs = xs[i := (xs ! i)\<lparr>is_completed := c\<rparr>]"
proof (induction xs arbitrary: i)
  case Nil
  then show ?case by simp
next
  case (Cons x xs)
  show ?case
  proof (cases i)
    case 0
    with Cons.prems show ?thesis by simp
  next
    case (Suc k)
    with Cons.prems have x: "name x \<noteq> n" by auto
    from Suc Cons.prems have "k < length xs" "name (xs ! k) = n" "\<forall>j<k. name (xs ! j) \<noteq> n"
      by auto
    from Cons.IH [OF this] x Suc show ?thesis by simp
  qed
qed

lemma map_entry_id:
  "map_of ls k = Some l \<Longrightarrow> f l = l \<Longrightarrow> AList.map_entry k f ls = ls"
  by (induction ls) (auto split: if_splits)

lemma lookup_set_items:
  "lookup_items d k = Returned xs \<Longrightarrow> lookup_items (set_items d k v) k = Returned v"
  by (auto simp: lookup_items_def set_items_def map_of_map_entry split: option.splits)

lemma set_items_same:
  "lookup_items d k = Returned xs \<Longrightarrow> set_items d k xs = d"
  by (auto simp: lookup_items_def set_items_def map_entry_id split: option.splits)

lemma lookup_set_items_other:
  "k' \<noteq> k \<Longrightarrow> lookup_items (set_items d k v) k' = lookup_items d k'"
  by (auto simp: lookup_items_def set_items_def map_of_map_entry split: option.splits)

lemma get_current_set_items:
  "current_list_id (set_items d k v) = current_list_id d"
  by (simp add: set_items_def)

lemma saved_after_save:
  "(mode = ''shopping'' \<longrightarrow> shopping_key (storage (save mode dm)) = Some (shopping_data (save mode dm)))
   \<and> (mode \<noteq> ''shopping'' \<longrightarrow> todo_key (storage (save mode dm)) = Some (todo_data (save mode dm)))"
  by simp

subsection \<open>Migrations\<close>

lemma lists_migrate_structure: "\<exists>ls. lists (migrate_structure d) = Some ls"
  by (simp add: migrate_structure_def Let_def)

lemma default_name_migrate_structure: "default_name (migrate_structure d) = Some ''Allgemein''"
  by (simp add: migrate_structure_def default_name_def Let_def)

lemma lists_set_default_name:
  "lists d = Some ls \<Longrightarrow> \<exists>ls'. lists (set_default_name d) = Some ls'"
  by (simp add: set_default_name_def)

lemma default_name_set_default_name:
  "default_name (set_default_name d) = map_option (\<lambda>_. ''Allgemein'') (default_name d)"
  by (auto simp: set_default_name_def default_name_def map_of_map_entry split: option.splits)

lemma fields_migrate_shopping:
  "todo_data (migrate_shopping dm) = todo_data dm"
  "shopping_data (migrate_shopping dm) =
     (if lists (shopping_data dm) = None then migrate_structure (shopping_data dm)
      else shopping_data dm)"
  by (simp_all add: migrate_shopping_def save_shopping_def)

lemma fields_migrate_todo:
  "shopping_data (migrate_todo dm) = shopping_data dm"
  "todo_data (migrate_todo dm) =
     (if lists (todo_data dm) = None then migrate_structure (todo_data dm) else todo_data dm)"
  by (simp_all add: migrate_todo_def save_todo_def)

lemma fields_normalize_shopping_name:
  "todo_data (normalize_shopping_name dm) = todo_data dm"
  "shopping_data (normalize_shopping_name dm) =
     (if default_name (shopping_data dm) \<in> {Some ''Einkaufsliste'', Some ''Shopping List''}
      then set_default_name (shopping_data dm) else shopping_data dm)"
  by (auto simp: normalize_shopping_name_def save_shopping_def split: option.splits)

lemma fields_normalize_todo_name:
  "shopping_data (normalize_todo_name dm) = shopping_data dm"
  "todo_data (normalize_todo_name dm) =
     (if default_name (todo_data dm) \<notin> {None, Some ''Allgemein''}
      then set_default_name (todo_data dm) else todo_data dm)"
  by (auto simp: normalize_todo_name_def save_todo_def split: option.splits)

lemma migrated_shopping:
  "(\<exists>ls. lists (shopping_data (run_migrations dm)) = Some ls)
   \<and> default_name (shopping_data (run_migrations dm))
         \<notin> {Some ''Einkaufsliste'', Some ''Shopping List''}"
proof -
  define d where "d = shopping_data (migrate_todo (migrate_shopping dm))"
  have l: "\<exists>ls. lists d = Some ls"
    using lists_migrate_structure [of "shopping_data dm"]
    by (auto simp: d_def fields_migrate_todo fields_migrate_shopping)
  have r: "shopping_data (run_migrations dm) =
     (if default_name d \<in> {Some ''Einkaufsliste'', Some ''Shopping List''}
      then set_default_name d else d)"
    unfolding d_def run_migrations_def
    by (simp only: fields_normalize_todo_name fields_normalize_shopping_name)
  show ?thesis
  proof (cases "default_name d \<in> {Some ''Einkaufsliste'', Some ''Shopping List''}")
    case True
    from l lists_set_default_name have "\<exists>ls. lists (set_default_name d) = Some ls" by blast
    with True r show ?thesis by (auto simp: default_name_set_default_name)
  next
    case False
    with l r show ?thesis by auto
  qed
qed

lemma migrated_todo:
  "(\<exists>ls. lists (todo_data (run_migrations dm)) = Some ls)
   \<and> default_name (todo_data (run_migrations dm)) \<in> {None, Some ''Allgemein''}"
proof -
  define d where "d = todo_data (normalize_shopping_name (migrate_todo (migrate_shopping dm)))"
  have l: "\<exists>ls. lists d = Some ls"
    using lists_migrate_structure [of "todo_data dm"]
    by (auto simp: d_def fields_normalize_shopping_name fields_migrate_todo fields_migrate_shopping)
  have r: "todo_data (run_migrations dm) =
     (if default_name d \<notin> {None, Some ''Allgemein''} then set_default_name d else d)"
    unfolding d_def run_migrations_def
    by (simp only: fields_normalize_todo_name)
  show ?thesis
  proof (cases "default_name d \<notin> {None, Some ''Allgemein''}")
    case True
    from l lists_set_default_name have "\<exists>ls. lists (set_default_name d) = Some ls" by blast
    with True r show ?thesis by (auto simp: default_name_set_default_name)
  next
    case False
    with l r show ?thesis by auto
  qed
qed

lemma run_migrations_fixed:
  assumes "\<exists>ls. lists (shopping_data dm) = Some ls" and "\<exists>ls. lists (todo_data dm) = Some ls"
    and "default_name (shopping_data dm) \<notin> {Some ''Einkaufsliste'', Some ''Shopping List''}"
    and "default_name (todo_data dm) \<in> {None, Some ''Allgemein''}"
  shows "run_migrations dm = dm"
proof -
  have 1: "migrate_shopping dm = dm" using assms(1) by (auto simp: migrate_shopping_def)
  have 2: "migrate_todo dm = dm" using assms(2) by (auto simp: migrate_todo_def)
  have 3: "normalize_shopping_name dm = dm"
    using assms(3) by (auto simp: normalize_shopping_name_def split: option.splits)
  have 4: "normalize_todo_name dm = dm"
    using assms(4) by (auto simp: normalize_todo_name_def split: option.splits)
  show ?thesis by (simp only: run_migrations_def 1 2 3 4)
qed

subsection \<open>Suggestions and normalisation\<close>

lemma set_get_all_suggestions:
  "set (get_all_suggestions S dm) = set S \<union> set (user_suggestions_data dm)"
  by (simp add: get_all_suggestions_def)

lemma find_SomeD: "find P xs = Some x \<Longrightarrow> x \<in> set xs \<and> P x"
  by (induction xs) (auto split: if_splits)

lemma normalize_name_no_match:
  "\<not> list_ex (\<lambda>s. lower s = lower clean) (S @ user_suggestions_data dm) \<Longrightarrow>
   normalize_name S dm clean = clean"
  by (auto simp: normalize_name_def set_get_all_suggestions list_ex_iff
      dest!: find_SomeD split: option.splits)

lemma learn_suggestion_new:
  "2 \<le> length n \<Longrightarrow> \<not> list_ex (\<lambda>s. lower s = lower n) (S @ user_suggestions_data dm) \<Longrightarrow>
   learn_suggestion S n dm =
     save_user_suggestions (dm\<lparr>user_suggestions_data := sort (user_suggestions_data dm @ [n])\<rparr>)"
  by (auto simp: learn_suggestion_def list_ex_iff)

lemma add_task_learned:
  "user_suggestions_data (snd (add_task S task_name prio completed mode dm)) =
     (if strip task_name \<noteq> [] \<and> mode = ''shopping''
      then user_suggestions_data (learn_suggestion S (normalize_name S dm (strip task_name)) dm)
      else user_suggestions_data dm)"
  "user_suggestions_key (storage (snd (add_task S task_name prio completed mode dm))) =
     (if strip task_name \<noteq> [] \<and> mode = ''shopping''
      then user_suggestions_key (storage (learn_suggestion S (normalize_name S dm (strip task_name)) dm))
      else user_suggestions_key (storage dm))"
  by (simp_all add: add_task_def Let_def split: result.splits)

lemma sorted_get_all_suggestions: "sorted (get_all_suggestions S dm)"
  by (simp add: get_all_suggestions_def)

lemma distinct_get_all_suggestions: "distinct (get_all_suggestions S dm)"
  by (simp add: get_all_suggestions_def)

lemma learn_suggestion_keeps_variants_apart:
  assumes "inj_on lower (set S \<union> set (user_suggestions_data dm))"
  shows "inj_on lower (set S \<union> set (user_suggestions_data (learn_suggestion S n dm)))"
proof (cases "learn_suggestion S n dm = dm")
  case True
  with assms show ?thesis by simp
next
  case False
  then have new: "\<forall>s \<in> set S \<union> set (user_suggestions_data dm). lower s \<noteq> lower n"
    and u: "user_suggestions_data (learn_suggestion S n dm) = sort (user_suggestions_data dm @ [n])"
    by (auto simp: learn_suggestion_def list_ex_iff save_user_suggestions_def split: if_splits)
  have "set S \<union> set (sort (user_suggestions_data dm @ [n]))
          = insert n (set S \<union> set (user_suggestions_data dm))"
    by auto
  moreover have "inj_on lower (insert n (set S \<union> set (user_suggestions_data dm)))"
    using assms new by auto
  ultimately show ?thesis using u by simp
qed

lemma find_sorted_least:
  "sorted xs \<Longrightarrow> find P xs = Some x \<Longrightarrow> y \<in> set xs \<Longrightarrow> P y \<Longrightarrow> x \<le> y"
  by (induction xs) (auto split: if_splits)

lemma find_Some_ex: "x \<in> set xs \<Longrightarrow> P x \<Longrightarrow> \<exists>y. find P xs = Some y"
  by (induction xs) auto

lemma normalize_name_least_match:
  assumes "s \<in> set S \<union> set (user_suggestions_data dm)" and "lower s = lower clean"
  shows "normalize_name S dm clean \<in> set S \<union> set (user_suggestions_data dm)
         \<and> lower (normalize_name S dm clean) = lower clean
         \<and> normalize_name S dm clean \<le> s"
proof -
  let ?P = "\<lambda>suggestion. lower suggestion = lower clean"
  from assms have m: "s \<in> set (get_all_suggestions S dm)" by (simp add: set_get_all_suggestions)
  from find_Some_ex [of s _ ?P, OF m assms(2)]
  obtain y where y: "find ?P (get_all_suggestions S dm) = Some y" by blast
  then have n: "normalize_name S dm clean = y" by (simp add: normalize_name_def)
  from find_SomeD [OF y] have "y \<in> set S \<union> set (user_suggestions_data dm)" "lower y = lower clean"
    by (simp_all add: set_get_all_suggestions)
  moreover from find_sorted_least [OF sorted_get_all_suggestions y m assms(2)] have "y \<le> s" .
  ultimately show ?thesis using n by simp
qed

lemma add_task_stored_name:
  "fst (add_task S task_name prio completed mode dm) = Returned (Some t) \<Longrightarrow>
   name t = normalize_name S dm (strip task_name)"
  by (auto simp: add_task_def Let_def split: if_splits result.splits)

subsection \<open>Adding a name and a case variant of it\<close>










subsection \<open>Uppercase and lowercase forms\<close>







section \<open>Deleting a list\<close>

text \<open>
  C2. \<open>delete_list\<close> returns \<open>False\<close> and leaves the whole store as it was when the id is
  \<open>"default"\<close>, and when the domain has at most one list. When the id is another key of
  \<open>lists\<close> and the domain has at least two lists, it returns \<open>True\<close> and the lists that
  remain are the former ones without that entry, in their order: exactly one entry is gone.
\<close>

theorem delete_list_guard_and_effect:
  "delete_list ''default'' mode dm = (Returned False, dm)
   \<and> (length (case lists (data_of mode dm) of None \<Rightarrow> [] | Some ls \<Rightarrow> ls) \<le> 1
        \<longrightarrow> delete_list list_id mode dm = (Returned False, dm))
   \<and> (\<forall>ls. lists (data_of mode dm) = Some ls \<and> distinct (map fst ls) \<and> 2 \<le> length ls
             \<and> has_key ls list_id \<and> list_id \<noteq> ''default''
        \<longrightarrow> (let (r, dm') = delete_list list_id mode dm
             in r = Returned True
                \<and> lists (data_of mode dm') = Some (filter (\<lambda>p. fst p \<noteq> list_id) ls)
                \<and> length (filter (\<lambda>p. fst p \<noteq> list_id) ls) + 1 = length ls))"
proof (intro conjI allI impI)
  show "delete_list ''default'' mode dm = (Returned False, dm)"
    by (simp add: delete_list_def)
next
  assume "length (case lists (data_of mode dm) of None \<Rightarrow> [] | Some ls \<Rightarrow> ls) \<le> 1"
  then show "delete_list list_id mode dm = (Returned False, dm)"
    by (simp add: delete_list_def Let_def)
next
  fix ls
  assume a: "lists (data_of mode dm) = Some ls \<and> distinct (map fst ls) \<and> 2 \<le> length ls
             \<and> has_key ls list_id \<and> list_id \<noteq> ''default''"
  have eq: "AList.delete list_id ls = filter (\<lambda>p. fst p \<noteq> list_id) ls"
    by (auto simp: AList.delete_eq intro: filter_cong)
  from a delete_list_success [of mode dm ls list_id] length_delete_distinct [of ls list_id]
  show "let (r, dm') = delete_list list_id mode dm
        in r = Returned True
           \<and> lists (data_of mode dm') = Some (filter (\<lambda>p. fst p \<noteq> list_id) ls)
           \<and> length (filter (\<lambda>p. fst p \<noteq> list_id) ls) + 1 = length ls"
    by (simp add: eq split_beta)
qed

theorem delete_list_guard_and_effect_witness:
  "length (case lists (data_of ''todo'' fresh_store) of None \<Rightarrow> [] | Some ls \<Rightarrow> ls) \<le> 1
   \<and> delete_list ''a1b2c3d4'' ''todo'' fresh_store = (Returned False, fresh_store)
   \<and> lists (data_of ''todo'' two_list_store) = Some two_lists
   \<and> distinct (map fst two_lists) \<and> 2 \<le> length two_lists
   \<and> has_key two_lists ''a1b2c3d4'' \<and> ''a1b2c3d4'' \<noteq> ''default''
   \<and> fst (delete_list ''a1b2c3d4'' ''todo'' two_list_store) = Returned True
   \<and> lists (data_of ''todo'' (snd (delete_list ''a1b2c3d4'' ''todo'' two_list_store)))
       = Some [(''default'', \<lparr>list_name = ''Allgemein'', items = []\<rparr>)]"
proof -
  have h1: "length (case lists (data_of ''todo'' fresh_store) of None \<Rightarrow> [] | Some ls \<Rightarrow> ls) \<le> 1"
    by (simp add: data_of_def fresh_store_def DEFAULT_TODO_DATA_def)
  have h2: "lists (data_of ''todo'' two_list_store) = Some two_lists
     \<and> distinct (map fst two_lists) \<and> 2 \<le> length two_lists
     \<and> has_key two_lists ''a1b2c3d4'' \<and> ''a1b2c3d4'' \<noteq> ''default''"
    by (simp add: data_of_def two_list_store_def two_lists_def has_key_def)
  have f: "filter (\<lambda>p. fst p \<noteq> ''a1b2c3d4'') two_lists
             = [(''default'', \<lparr>list_name = ''Allgemein'', items = []\<rparr>)]"
    by (simp add: two_lists_def)
  from delete_list_guard_and_effect [of "''todo''" fresh_store "''a1b2c3d4''"] h1
  have c1: "delete_list ''a1b2c3d4'' ''todo'' fresh_store = (Returned False, fresh_store)"
    by blast
  from delete_list_guard_and_effect [of "''todo''" two_list_store "''a1b2c3d4''"] h2
  have c2: "let (r, dm') = delete_list ''a1b2c3d4'' ''todo'' two_list_store
            in r = Returned True
               \<and> lists (data_of ''todo'' dm') = Some (filter (\<lambda>p. fst p \<noteq> ''a1b2c3d4'') two_lists)
               \<and> length (filter (\<lambda>p. fst p \<noteq> ''a1b2c3d4'') two_lists) + 1 = length two_lists"
    by blast
  from h1 h2 c1 c2 f show ?thesis
    by (simp add: split_beta)
qed

section \<open>The invariant is preserved\<close>

text \<open>
  C1. Every operation of the store, called with any mode, keeps the invariant of each domain
  document: the current list id is a key of \<open>lists\<close>, and \<open>lists\<close> has the key
  \<open>default\<close>. In particular, when \<open>delete_list\<close> removes the list that was current, the
  current list id afterwards is a key of the remaining lists (and is not the removed id).
\<close>

theorem store_invariant_preserved:
  "(collection_inv (data_of m dm) \<longrightarrow>
       collection_inv (data_of m (snd (create_list new_id nm mode dm)))
     \<and> collection_inv (data_of m (set_current_list_id list_id mode dm))
     \<and> collection_inv (data_of m (rename_list list_id nm mode dm))
     \<and> collection_inv (data_of m (snd (delete_list list_id mode dm)))
     \<and> collection_inv (data_of m (snd (add_task S task_name prio completed mode dm)))
     \<and> collection_inv (data_of m (snd (update_task_status task_name completed mode dm)))
     \<and> collection_inv (data_of m (snd (delete_task task_name mode dm)))
     \<and> collection_inv (data_of m (snd (clear_tasks mode dm)))
     \<and> collection_inv (data_of m (snd (clear_completed_tasks mode dm)))
     \<and> collection_inv (data_of m (snd (clear_shopping_cart dm)))
     \<and> collection_inv (data_of m (learn_suggestion S task_name dm))
     \<and> collection_inv (data_of m (snd (update_setting key val dm))))
   \<and> (collection_inv (data_of mode dm)
       \<and> get_current_list_id mode dm = list_id
       \<and> fst (delete_list list_id mode dm) = Returned True \<longrightarrow>
         has_key (case lists (data_of mode (snd (delete_list list_id mode dm))) of
                    None \<Rightarrow> [] | Some ls \<Rightarrow> ls)
           (get_current_list_id mode (snd (delete_list list_id mode dm)))
         \<and> get_current_list_id mode (snd (delete_list list_id mode dm)) \<noteq> list_id)"
proof (intro conjI impI)
  assume "collection_inv (data_of mode dm) \<and> get_current_list_id mode dm = list_id
          \<and> fst (delete_list list_id mode dm) = Returned True"
  then have a: "collection_inv (data_of mode dm)" "fst (delete_list list_id mode dm) = Returned True"
    by simp_all
  from current_after_delete_list [OF a]
  show "has_key (case lists (data_of mode (snd (delete_list list_id mode dm))) of
                    None \<Rightarrow> [] | Some ls \<Rightarrow> ls)
           (get_current_list_id mode (snd (delete_list list_id mode dm)))"
    and "get_current_list_id mode (snd (delete_list list_id mode dm)) \<noteq> list_id"
    by simp_all
qed (simp_all add: inv_create_list inv_set_current_list_id inv_rename_list inv_delete_list
       inv_add_task inv_update_task_status inv_delete_task inv_clear_tasks
       inv_clear_completed_tasks clear_shopping_cart_eq inv_update_setting)

theorem store_invariant_preserved_witness:
  "collection_inv (data_of ''todo'' two_list_store)
   \<and> get_current_list_id ''todo'' two_list_store = ''a1b2c3d4''
   \<and> fst (delete_list ''a1b2c3d4'' ''todo'' two_list_store) = Returned True
   \<and> collection_inv (data_of ''todo'' (snd (delete_list ''a1b2c3d4'' ''todo'' two_list_store)))
   \<and> get_current_list_id ''todo'' (snd (delete_list ''a1b2c3d4'' ''todo'' two_list_store)) = ''default''
   \<and> has_key (case lists (data_of ''todo'' (snd (delete_list ''a1b2c3d4'' ''todo'' two_list_store))) of
                None \<Rightarrow> [] | Some ls \<Rightarrow> ls) ''default''"
proof -
  have h: "collection_inv (data_of ''todo'' two_list_store)
     \<and> get_current_list_id ''todo'' two_list_store = ''a1b2c3d4''
     \<and> fst (delete_list ''a1b2c3d4'' ''todo'' two_list_store) = Returned True"
    by code_simp
  have c: "get_current_list_id ''todo'' (snd (delete_list ''a1b2c3d4'' ''todo'' two_list_store)) = ''default''"
    by code_simp
  from store_invariant_preserved
         [where m="''todo''" and dm=two_list_store and mode="''todo''" and list_id="''a1b2c3d4''"] h c
  show ?thesis by simp
qed

section \<open>Operations touch one domain\<close>

text \<open>
  C10. An operation called with mode \<open>"shopping"\<close> leaves the todo document (its settings
  included) unchanged, in memory and in the client storage; an operation called with any
  other mode, \<open>"todo"\<close> in particular, leaves the shopping document unchanged. None of the
  list and task operations changes the learned suggestions, except \<open>add_task\<close> in mode
  \<open>"shopping"\<close>.
\<close>

theorem operations_touch_one_domain:
  "unchanged_other mode dm (snd (add_task S task_name prio completed mode dm))
   \<and> unchanged_other mode dm (snd (update_task_status task_name completed mode dm))
   \<and> unchanged_other mode dm (snd (delete_task task_name mode dm))
   \<and> unchanged_other mode dm (snd (clear_tasks mode dm))
   \<and> unchanged_other mode dm (snd (clear_completed_tasks mode dm))
   \<and> unchanged_other mode dm (snd (create_list new_id nm mode dm))
   \<and> unchanged_other mode dm (rename_list list_id nm mode dm)
   \<and> unchanged_other mode dm (snd (delete_list list_id mode dm))
   \<and> unchanged_other mode dm (set_current_list_id list_id mode dm)
   \<and> user_suggestions_data (snd (update_task_status task_name completed mode dm)) = user_suggestions_data dm
   \<and> user_suggestions_data (snd (delete_task task_name mode dm)) = user_suggestions_data dm
   \<and> user_suggestions_data (snd (clear_tasks mode dm)) = user_suggestions_data dm
   \<and> user_suggestions_data (snd (clear_completed_tasks mode dm)) = user_suggestions_data dm
   \<and> user_suggestions_data (snd (create_list new_id nm mode dm)) = user_suggestions_data dm
   \<and> user_suggestions_data (rename_list list_id nm mode dm) = user_suggestions_data dm
   \<and> user_suggestions_data (snd (delete_list list_id mode dm)) = user_suggestions_data dm
   \<and> user_suggestions_data (set_current_list_id list_id mode dm) = user_suggestions_data dm
   \<and> (mode \<noteq> ''shopping'' \<longrightarrow>
        user_suggestions_data (snd (add_task S task_name prio completed mode dm)) = user_suggestions_data dm)"
  by (simp add: frame_add_task frame_update_task_status frame_delete_task frame_clear_tasks
        frame_clear_completed_tasks frame_create_list frame_rename_list frame_delete_list
        frame_set_current_list_id)

theorem operations_touch_one_domain_witness:
  "''todo'' \<noteq> ''shopping''
   \<and> shopping_data (snd (add_task [] ''Brot'' ''medium'' False ''todo'' fresh_store)) = shopping_data fresh_store
   \<and> user_suggestions_data (snd (add_task [] ''Brot'' ''medium'' False ''todo'' fresh_store)) = []
   \<and> todo_data (snd (add_task [] ''Brot'' ''medium'' False ''shopping'' fresh_store)) = todo_data fresh_store
   \<and> user_suggestions_data (snd (add_task [] ''Brot'' ''medium'' False ''shopping'' fresh_store)) = [''Brot'']"
proof -
  have m: "''todo'' \<noteq> ''shopping''" by simp
  have u: "user_suggestions_data fresh_store = []" by (simp add: fresh_store_def)
  have l: "user_suggestions_data (snd (add_task [] ''Brot'' ''medium'' False ''shopping'' fresh_store)) = [''Brot'']"
    by code_simp
  from operations_touch_one_domain
         [where mode="''todo''" and dm=fresh_store and S="[]" and task_name="''Brot''"
            and prio="''medium''" and completed=False]
       operations_touch_one_domain
         [where mode="''shopping''" and dm=fresh_store and S="[]" and task_name="''Brot''"
            and prio="''medium''" and completed=False]
       m u l
  show ?thesis by (simp add: unchanged_other_def)
qed

section \<open>Expected conditions are reported by the return value\<close>

text \<open>
  C9. When the trimmed name is empty, \<open>add_task\<close> returns \<open>None\<close> and the store, the
  client storage included, is the one it was given: nothing is changed and nothing is
  written (a write would be seen in every store whose client storage is behind the
  document in memory). An id that is not a key of \<open>lists\<close> makes \<open>set_current_list_id\<close> and
  \<open>rename_list\<close> return without a change and \<open>delete_list\<close> return \<open>False\<close>; deleting
  \<open>default\<close> or the last list returns \<open>False\<close>; and \<open>delete_list\<close> raises on no input
  (the keys of a dict are distinct).
\<close>

theorem expected_conditions_return_sentinels:
  "(strip task_name = [] \<longrightarrow> add_task S task_name prio completed mode dm = (Returned None, dm))
   \<and> (\<not> has_key (case lists (data_of mode dm) of None \<Rightarrow> [] | Some ls \<Rightarrow> ls) list_id \<longrightarrow>
         set_current_list_id list_id mode dm = dm
         \<and> rename_list list_id nm mode dm = dm
         \<and> delete_list list_id mode dm = (Returned False, dm))
   \<and> delete_list ''default'' mode dm = (Returned False, dm)
   \<and> (length (case lists (data_of mode dm) of None \<Rightarrow> [] | Some ls \<Rightarrow> ls) \<le> 1 \<longrightarrow>
         delete_list list_id mode dm = (Returned False, dm))
   \<and> (distinct (map fst (case lists (data_of mode dm) of None \<Rightarrow> [] | Some ls \<Rightarrow> ls)) \<longrightarrow>
         (\<forall>e. fst (delete_list list_id mode dm) \<noteq> Raised e))"
proof (intro conjI impI allI)
  assume "strip task_name = []"
  then show "add_task S task_name prio completed mode dm = (Returned None, dm)"
    by (simp add: add_task_def)
next
  assume a: "\<not> has_key (case lists (data_of mode dm) of None \<Rightarrow> [] | Some ls \<Rightarrow> ls) list_id"
  then show "set_current_list_id list_id mode dm = dm"
    by (simp add: set_current_list_id_def Let_def split: option.splits)
  from a show "rename_list list_id nm mode dm = dm"
    by (simp add: rename_list_def Let_def split: option.splits)
  from a show "delete_list list_id mode dm = (Returned False, dm)"
    by (cases "lists (data_of mode dm)") (simp_all add: delete_list_def Let_def)
next
  show "delete_list ''default'' mode dm = (Returned False, dm)"
    by (simp add: delete_list_def)
next
  assume "length (case lists (data_of mode dm) of None \<Rightarrow> [] | Some ls \<Rightarrow> ls) \<le> 1"
  then show "delete_list list_id mode dm = (Returned False, dm)"
    by (simp add: delete_list_def Let_def)
next
  fix e
  assume "distinct (map fst (case lists (data_of mode dm) of None \<Rightarrow> [] | Some ls \<Rightarrow> ls))"
  then show "fst (delete_list list_id mode dm) \<noteq> Raised e"
    by (rule delete_list_no_raise)
qed

theorem expected_conditions_return_sentinels_witness:
  "strip '' '' = []
   \<and> add_task [] '' '' ''medium'' False ''todo'' two_list_store = (Returned None, two_list_store)
   \<and> todo_key (storage two_list_store) \<noteq> Some (todo_data two_list_store)
   \<and> \<not> has_key (case lists (data_of ''todo'' two_list_store) of None \<Rightarrow> [] | Some ls \<Rightarrow> ls) ''ffffffff''
   \<and> set_current_list_id ''ffffffff'' ''todo'' two_list_store = two_list_store
   \<and> rename_list ''ffffffff'' ''Neu'' ''todo'' two_list_store = two_list_store
   \<and> delete_list ''ffffffff'' ''todo'' two_list_store = (Returned False, two_list_store)
   \<and> length (case lists (data_of ''shopping'' two_list_store) of None \<Rightarrow> [] | Some ls \<Rightarrow> ls) \<le> 1
   \<and> delete_list ''ffffffff'' ''shopping'' two_list_store = (Returned False, two_list_store)
   \<and> distinct (map fst (case lists (data_of ''todo'' two_list_store) of None \<Rightarrow> [] | Some ls \<Rightarrow> ls))
   \<and> fst (delete_list ''a1b2c3d4'' ''todo'' two_list_store) \<noteq> Raised StopIteration"
proof -
  have h1: "strip '' '' = []" by code_simp
  have h2: "\<not> has_key (case lists (data_of ''todo'' two_list_store) of None \<Rightarrow> [] | Some ls \<Rightarrow> ls) ''ffffffff''"
    by code_simp
  have h3: "length (case lists (data_of ''shopping'' two_list_store) of None \<Rightarrow> [] | Some ls \<Rightarrow> ls) \<le> 1"
    by code_simp
  have h4: "distinct (map fst (case lists (data_of ''todo'' two_list_store) of None \<Rightarrow> [] | Some ls \<Rightarrow> ls))"
    by code_simp
  have h5: "todo_key (storage two_list_store) \<noteq> Some (todo_data two_list_store)"
    by code_simp
  from expected_conditions_return_sentinels
         [where mode="''shopping''" and dm=two_list_store and list_id="''ffffffff''"]
       expected_conditions_return_sentinels
         [where task_name="'' ''" and S="[]" and prio="''medium''" and completed=False
            and mode="''todo''" and dm=two_list_store and list_id="''ffffffff''" and nm="''Neu''"]
       expected_conditions_return_sentinels
         [where mode="''todo''" and dm=two_list_store and list_id="''a1b2c3d4''"]
       h1 h2 h3 h4 h5
  show ?thesis by blast
qed

section \<open>Changing the status of a task\<close>

text \<open>
  C8. When the current list exists, \<open>update_task_status\<close> returns normally, keeps the
  current list id and every other list, and writes the document of the domain to the client
  storage. When no item of the current list has exactly the given name, the document is
  unchanged; otherwise the item at the first index whose name is exactly the given one gets
  the given completion flag and every other item stays as it was.
\<close>

theorem update_task_status_first_exact_match:
  "lookup_items (data_of mode dm) (get_current_list_id mode dm) = Returned xs \<longrightarrow>
     (let (r, dm') = update_task_status task_name completed mode dm
      in r = Returned ()
         \<and> get_current_list_id mode dm' = get_current_list_id mode dm
         \<and> (\<forall>k. k \<noteq> get_current_list_id mode dm \<longrightarrow>
               lookup_items (data_of mode dm') k = lookup_items (data_of mode dm) k)
         \<and> ((\<forall>t\<in>set xs. name t \<noteq> task_name) \<longrightarrow> data_of mode dm' = data_of mode dm)
         \<and> (\<forall>i<length xs. name (xs ! i) = task_name \<and> (\<forall>j<i. name (xs ! j) \<noteq> task_name) \<longrightarrow>
               lookup_items (data_of mode dm') (get_current_list_id mode dm)
                 = Returned (xs[i := (xs ! i)\<lparr>is_completed := completed\<rparr>]))
         \<and> (mode = ''shopping'' \<longrightarrow> shopping_key (storage dm') = Some (shopping_data dm'))
         \<and> (mode \<noteq> ''shopping'' \<longrightarrow> todo_key (storage dm') = Some (todo_data dm')))"
proof
  assume l: "lookup_items (data_of mode dm) (get_current_list_id mode dm) = Returned xs"
  let ?cur = "get_current_list_id mode dm"
  let ?d' = "set_items (data_of mode dm) ?cur (mark_first task_name completed xs)"
  have u: "update_task_status task_name completed mode dm =
             (Returned (), save mode (set_data mode ?d' dm))"
    using l by (simp add: update_task_status_def Let_def)
  have d': "data_of mode (save mode (set_data mode ?d' dm)) = ?d'" by simp
  have c: "get_current_list_id mode (save mode (set_data mode ?d' dm)) = ?cur"
    by (simp add: get_current_list_id_def get_current_set_items)
  have o: "\<forall>k. k \<noteq> ?cur \<longrightarrow> lookup_items ?d' k = lookup_items (data_of mode dm) k"
    by (simp add: lookup_set_items_other)
  have n: "(\<forall>t\<in>set xs. name t \<noteq> task_name) \<longrightarrow> ?d' = data_of mode dm"
    using l by (simp add: mark_first_none set_items_same)
  have f: "\<forall>i<length xs. name (xs ! i) = task_name \<and> (\<forall>j<i. name (xs ! j) \<noteq> task_name) \<longrightarrow>
             lookup_items ?d' ?cur = Returned (xs[i := (xs ! i)\<lparr>is_completed := completed\<rparr>])"
    using l by (simp add: mark_first_at lookup_set_items)
  from u d' c o n f saved_after_save [of mode "set_data mode ?d' dm"]
  show "let (r, dm') = update_task_status task_name completed mode dm
      in r = Returned ()
         \<and> get_current_list_id mode dm' = get_current_list_id mode dm
         \<and> (\<forall>k. k \<noteq> get_current_list_id mode dm \<longrightarrow>
               lookup_items (data_of mode dm') k = lookup_items (data_of mode dm) k)
         \<and> ((\<forall>t\<in>set xs. name t \<noteq> task_name) \<longrightarrow> data_of mode dm' = data_of mode dm)
         \<and> (\<forall>i<length xs. name (xs ! i) = task_name \<and> (\<forall>j<i. name (xs ! j) \<noteq> task_name) \<longrightarrow>
               lookup_items (data_of mode dm') (get_current_list_id mode dm)
                 = Returned (xs[i := (xs ! i)\<lparr>is_completed := completed\<rparr>]))
         \<and> (mode = ''shopping'' \<longrightarrow> shopping_key (storage dm') = Some (shopping_data dm'))
         \<and> (mode \<noteq> ''shopping'' \<longrightarrow> todo_key (storage dm') = Some (todo_data dm'))"
    by (simp only: u split_conv Let_def)
qed




theorem update_task_status_first_exact_match_witness:
  "lookup_items (data_of ''shopping'' milk_store) (get_current_list_id ''shopping'' milk_store)
     = Returned [\<lparr>name = ''milk'', priority = ''medium'', is_completed = False\<rparr>,
                 \<lparr>name = ''Milk'', priority = ''medium'', is_completed = False\<rparr>,
                 \<lparr>name = ''Milk'', priority = ''medium'', is_completed = False\<rparr>]
   \<and> lookup_items (data_of ''shopping'' (snd (update_task_status ''Milk'' True ''shopping'' milk_store)))
         (get_current_list_id ''shopping'' milk_store)
     = Returned [\<lparr>name = ''milk'', priority = ''medium'', is_completed = False\<rparr>,
                 \<lparr>name = ''Milk'', priority = ''medium'', is_completed = True\<rparr>,
                 \<lparr>name = ''Milk'', priority = ''medium'', is_completed = False\<rparr>]
   \<and> data_of ''shopping'' (snd (update_task_status ''MILK'' True ''shopping'' milk_store))
     = data_of ''shopping'' milk_store
   \<and> shopping_key (storage (snd (update_task_status ''MILK'' True ''shopping'' milk_store)))
     = Some (shopping_data milk_store)"
proof -
  let ?xs = "[\<lparr>name = ''milk'', priority = ''medium'', is_completed = False\<rparr>,
              \<lparr>name = ''Milk'', priority = ''medium'', is_completed = False\<rparr>,
              \<lparr>name = ''Milk'', priority = ''medium'', is_completed = False\<rparr>]"
  have h: "lookup_items (data_of ''shopping'' milk_store) (get_current_list_id ''shopping'' milk_store)
             = Returned ?xs"
    by code_simp
  have i: "(1::nat) < length ?xs \<and> name (?xs ! 1) = ''Milk'' \<and> (\<forall>j<1. name (?xs ! j) \<noteq> ''Milk'')"
    by simp
  have n: "\<forall>t\<in>set ?xs. name t \<noteq> ''MILK''" by simp
  from update_task_status_first_exact_match
         [where mode="''shopping''" and dm=milk_store and xs="?xs" and task_name="''Milk''"
            and completed=True] h i
  have a: "lookup_items (data_of ''shopping'' (snd (update_task_status ''Milk'' True ''shopping'' milk_store)))
         (get_current_list_id ''shopping'' milk_store)
     = Returned (?xs[1 := (?xs ! 1)\<lparr>is_completed := True\<rparr>])"
    by (simp only: split_beta Let_def) blast
  from update_task_status_first_exact_match
         [where mode="''shopping''" and dm=milk_store and xs="?xs" and task_name="''MILK''"
            and completed=True] h n
  have b: "data_of ''shopping'' (snd (update_task_status ''MILK'' True ''shopping'' milk_store))
             = data_of ''shopping'' milk_store
           \<and> shopping_key (storage (snd (update_task_status ''MILK'' True ''shopping'' milk_store)))
             = Some (shopping_data (snd (update_task_status ''MILK'' True ''shopping'' milk_store)))"
    by (simp only: split_beta Let_def)
  from h a b show ?thesis by (simp add: data_of_def)
qed

section \<open>Migrations are idempotent\<close>

text \<open>
  C7. Running the structural migration and the normalisation of the default name on a
  store they have already been run on changes nothing: the documents, the learned
  suggestions and the client storage are the same.
\<close>

theorem run_migrations_idempotent:
  "run_migrations (run_migrations dm) = run_migrations dm"
proof (rule run_migrations_fixed)
  show "\<exists>ls. lists (shopping_data (run_migrations dm)) = Some ls"
    and "default_name (shopping_data (run_migrations dm))
           \<notin> {Some ''Einkaufsliste'', Some ''Shopping List''}"
    using migrated_shopping [of dm] by blast+
  show "\<exists>ls. lists (todo_data (run_migrations dm)) = Some ls"
    and "default_name (todo_data (run_migrations dm)) \<in> {None, Some ''Allgemein''}"
    using migrated_todo [of dm] by blast+
qed




theorem run_migrations_idempotent_witness:
  "run_migrations legacy_store =
     \<lparr>todo_data = migrated_todo_data, shopping_data = migrated_shopping_data,
      user_suggestions_data = [],
      storage = \<lparr>todo_key = Some migrated_todo_data, shopping_key = Some migrated_shopping_data,
                 user_suggestions_key = Some []\<rparr>\<rparr>
   \<and> run_migrations
        \<lparr>todo_data = migrated_todo_data, shopping_data = migrated_shopping_data,
         user_suggestions_data = [],
         storage = \<lparr>todo_key = Some migrated_todo_data, shopping_key = Some migrated_shopping_data,
                    user_suggestions_key = Some []\<rparr>\<rparr>
      = \<lparr>todo_data = migrated_todo_data, shopping_data = migrated_shopping_data,
         user_suggestions_data = [],
         storage = \<lparr>todo_key = Some migrated_todo_data, shopping_key = Some migrated_shopping_data,
                    user_suggestions_key = Some []\<rparr>\<rparr>"
proof -
  have e: "run_migrations legacy_store =
     \<lparr>todo_data = migrated_todo_data, shopping_data = migrated_shopping_data,
      user_suggestions_data = [],
      storage = \<lparr>todo_key = Some migrated_todo_data, shopping_key = Some migrated_shopping_data,
                 user_suggestions_key = Some []\<rparr>\<rparr>"
    by code_simp
  from run_migrations_idempotent [of legacy_store] e show ?thesis by simp
qed

section \<open>Learning comes before the duplicate check\<close>

text \<open>
  C5. In mode \<open>"shopping"\<close>, when the trimmed name is not empty, has at least two
  characters and matches no entry of the static or the learned list case-insensitively,
  \<open>add_task\<close> leaves the learned list with that name added and sorted, and writes the
  learned list to the client storage, whatever the call returns: also when it returns
  \<open>None\<close> because the current list holds a case-insensitive duplicate.
\<close>

theorem add_task_learns_before_duplicate_check:
  "strip task_name \<noteq> [] \<and> 2 \<le> length (strip task_name)
   \<and> \<not> list_ex (\<lambda>s. lower s = lower (strip task_name)) (SUGGESTIONS @ user_suggestions_data dm)
   \<longrightarrow>
     (let dm' = snd (add_task SUGGESTIONS task_name prio completed ''shopping'' dm)
      in user_suggestions_data dm' = sort (user_suggestions_data dm @ [strip task_name])
         \<and> strip task_name \<in> set (user_suggestions_data dm')
         \<and> user_suggestions_key (storage dm') = Some (user_suggestions_data dm'))"
proof
  assume a: "strip task_name \<noteq> [] \<and> 2 \<le> length (strip task_name)
   \<and> \<not> list_ex (\<lambda>s. lower s = lower (strip task_name)) (SUGGESTIONS @ user_suggestions_data dm)"
  then have n: "normalize_name SUGGESTIONS dm (strip task_name) = strip task_name"
    by (simp add: normalize_name_no_match)
  from a have l: "learn_suggestion SUGGESTIONS (strip task_name) dm =
     save_user_suggestions
       (dm\<lparr>user_suggestions_data := sort (user_suggestions_data dm @ [strip task_name])\<rparr>)"
    by (simp add: learn_suggestion_new)
  from a show "let dm' = snd (add_task SUGGESTIONS task_name prio completed ''shopping'' dm)
      in user_suggestions_data dm' = sort (user_suggestions_data dm @ [strip task_name])
         \<and> strip task_name \<in> set (user_suggestions_data dm')
         \<and> user_suggestions_key (storage dm') = Some (user_suggestions_data dm')"
    by (simp add: Let_def add_task_learned n l save_user_suggestions_def)
qed

theorem add_task_learns_before_duplicate_check_witness:
  "strip '' MILK '' \<noteq> [] \<and> 2 \<le> length (strip '' MILK '')
   \<and> \<not> list_ex (\<lambda>s. lower s = lower (strip '' MILK ''))
           ([''Brot''] @ user_suggestions_data milk_store)
   \<and> fst (add_task [''Brot''] '' MILK '' ''medium'' False ''shopping'' milk_store) = Returned None
   \<and> user_suggestions_data
        (snd (add_task [''Brot''] '' MILK '' ''medium'' False ''shopping'' milk_store)) = [''MILK'']"
proof -
  have h: "strip '' MILK '' \<noteq> [] \<and> 2 \<le> length (strip '' MILK '')
     \<and> \<not> list_ex (\<lambda>s. lower s = lower (strip '' MILK ''))
           ([''Brot''] @ user_suggestions_data milk_store)"
    by code_simp
  have r: "fst (add_task [''Brot''] '' MILK '' ''medium'' False ''shopping'' milk_store) = Returned None"
    by code_simp
  have s: "sort (user_suggestions_data milk_store @ [strip '' MILK '']) = [''MILK'']"
    by code_simp
  from add_task_learns_before_duplicate_check
         [where task_name="'' MILK ''" and SUGGESTIONS="[''Brot'']" and dm=milk_store
            and prio="''medium''" and completed=False] h
  have "user_suggestions_data
          (snd (add_task [''Brot''] '' MILK '' ''medium'' False ''shopping'' milk_store))
        = sort (user_suggestions_data milk_store @ [strip '' MILK ''])"
    by (simp only: Let_def) blast
  with h r s show ?thesis by simp
qed

section \<open>The suggestion union\<close>

text \<open>
  C6, as the code has it. \<open>get_all_suggestions\<close> returns the members of the static and the
  learned list in ascending order, each exactly once: only equal strings are merged. When no
  two different members have the same lowercase form, no two returned entries have, and
  \<open>learn_suggestion\<close> keeps the two lists in that condition.
\<close>

theorem get_all_suggestions_exact_union:
  "sorted (get_all_suggestions S dm)
   \<and> distinct (get_all_suggestions S dm)
   \<and> set (get_all_suggestions S dm) = set S \<union> set (user_suggestions_data dm)
   \<and> (inj_on lower (set S \<union> set (user_suggestions_data dm)) \<longrightarrow>
        distinct (map lower (get_all_suggestions S dm))
        \<and> inj_on lower (set S \<union> set (user_suggestions_data (learn_suggestion S n dm))))"
proof (intro conjI impI)
  assume i: "inj_on lower (set S \<union> set (user_suggestions_data dm))"
  then show "distinct (map lower (get_all_suggestions S dm))"
    by (simp add: distinct_map distinct_get_all_suggestions set_get_all_suggestions)
  from i show "inj_on lower (set S \<union> set (user_suggestions_data (learn_suggestion S n dm)))"
    by (rule learn_suggestion_keeps_variants_apart)
qed (simp_all add: sorted_get_all_suggestions distinct_get_all_suggestions set_get_all_suggestions)

theorem get_all_suggestions_exact_union_witness:
  "inj_on lower (set [''Brot''] \<union> set (user_suggestions_data variants_store))
   \<and> get_all_suggestions [''Brot''] variants_store = [''Brot'', ''Milk'']
   \<and> distinct (map lower (get_all_suggestions [''Brot''] variants_store))
   \<and> user_suggestions_data (learn_suggestion [''Brot''] ''milk'' variants_store) = [''Milk'']"
proof -
  have d: "distinct (map lower ([''Brot''] @ user_suggestions_data variants_store))" by code_simp
  then have h: "inj_on lower (set [''Brot''] \<union> set (user_suggestions_data variants_store))"
    by (simp only: distinct_map set_append [symmetric])
  have g: "get_all_suggestions [''Brot''] variants_store = [''Brot'', ''Milk'']" by code_simp
  have l: "user_suggestions_data (learn_suggestion [''Brot''] ''milk'' variants_store) = [''Milk'']"
    by code_simp
  from get_all_suggestions_exact_union [of "[''Brot'']" variants_store "''milk''"] h g l
  show ?thesis by blast
qed

text \<open>
  C6 as stated fails: with \<open>milk\<close> in the static list and \<open>Milk\<close> in the stored learned
  list, both are returned, and they are equal up to lowercasing.
\<close>

theorem get_all_suggestions_case_variants_counterexample:
  "get_all_suggestions [''milk''] variants_store = [''Milk'', ''milk'']
   \<and> lower ''Milk'' = lower ''milk''
   \<and> \<not> distinct (map lower (get_all_suggestions [''milk''] variants_store))"
  by code_simp

section \<open>The casing that is stored\<close>

text \<open>
  C4, as the code has it. The name of the item that \<open>add_task\<close> stores is the trimmed
  name when no member of the static or learned list matches it case-insensitively;
  otherwise it is a matching member, and the least of them in code point order, whichever
  list it comes from.
\<close>

theorem add_task_stores_least_matching_suggestion:
  "fst (add_task S task_name prio completed mode dm) = Returned (Some t) \<longrightarrow>
     ((\<forall>s \<in> set S \<union> set (user_suggestions_data dm). lower s \<noteq> lower (strip task_name)) \<longrightarrow>
        name t = strip task_name)
     \<and> (\<forall>s \<in> set S \<union> set (user_suggestions_data dm). lower s = lower (strip task_name) \<longrightarrow>
          name t \<in> set S \<union> set (user_suggestions_data dm)
          \<and> lower (name t) = lower (strip task_name)
          \<and> name t \<le> s)"
proof (intro impI conjI ballI)
  assume r: "fst (add_task S task_name prio completed mode dm) = Returned (Some t)"
  then have n: "name t = normalize_name S dm (strip task_name)" by (rule add_task_stored_name)
  {
    assume "\<forall>s \<in> set S \<union> set (user_suggestions_data dm). lower s \<noteq> lower (strip task_name)"
    then have "\<not> list_ex (\<lambda>s. lower s = lower (strip task_name)) (S @ user_suggestions_data dm)"
      by (auto simp: list_ex_iff)
    with n show "name t = strip task_name" by (simp add: normalize_name_no_match)
  }
  fix s
  assume s: "s \<in> set S \<union> set (user_suggestions_data dm)" "lower s = lower (strip task_name)"
  from normalize_name_least_match [OF s] n
  show "name t \<in> set S \<union> set (user_suggestions_data dm)"
    and "lower (name t) = lower (strip task_name)" and "name t \<le> s"
    by simp_all
qed

theorem add_task_stores_least_matching_suggestion_witness:
  "fst (add_task [''milk''] ''MILK'' ''medium'' False ''todo'' variants_store)
     = Returned (Some \<lparr>name = ''Milk'', priority = ''medium'', is_completed = False\<rparr>)
   \<and> ''milk'' \<in> set [''milk''] \<union> set (user_suggestions_data variants_store)
   \<and> lower ''milk'' = lower (strip ''MILK'')
   \<and> ''Milk'' \<le> ''milk''"
proof -
  have r: "fst (add_task [''milk''] ''MILK'' ''medium'' False ''todo'' variants_store)
     = Returned (Some \<lparr>name = ''Milk'', priority = ''medium'', is_completed = False\<rparr>)"
    by code_simp
  have m: "''milk'' \<in> set [''milk''] \<union> set (user_suggestions_data variants_store)" by simp
  have l: "lower ''milk'' = lower (strip ''MILK'')" by code_simp
  from add_task_stores_least_matching_suggestion
         [where S="[''milk'']" and task_name="''MILK''" and prio="''medium''" and completed=False
            and mode="''todo''" and dm=variants_store
            and t="\<lparr>name = ''Milk'', priority = ''medium'', is_completed = False\<rparr>"] r m l
  have "name \<lparr>name = ''Milk'', priority = ''medium'', is_completed = False\<rparr> \<le> ''milk''"
    by blast
  with r m l show ?thesis by simp
qed

text \<open>
  C4 as stated fails: with \<open>milk\<close> in the static list and \<open>Milk\<close> in the learned list,
  the first match in the order static, then learned, is \<open>milk\<close>, and \<open>add_task\<close>
  stores \<open>Milk\<close>, the casing of the learned entry.
\<close>

theorem add_task_static_casing_counterexample:
  "lower ''milk'' = lower ''MILK'' \<and> lower ''Milk'' = lower ''MILK''
   \<and> spec_normalize_name [''milk''] variants_store ''MILK'' = ''milk''
   \<and> fst (add_task [''milk''] ''MILK'' ''medium'' False ''todo'' variants_store)
       = Returned (Some \<lparr>name = ''Milk'', priority = ''medium'', is_completed = False\<rparr>)"
  by code_simp

section \<open>Duplicates up to case\<close>




end
